theory Spec2Isabelle
  imports Complex_Main "HOL-Library.Sublist"
begin

section \<open>JavaScript numbers\<close>

text \<open>
  A JavaScript number is a finite value, \<open>NaN\<close> or one of the two infinities. Finite
  values are modelled by the reals: rounding, overflow to infinity and the sign of zero are
  not modelled. The special values follow IEEE 754, which is what decides the
  \<open>isFinite\<close> checks of the program.
\<close>

datatype jsnum = Fin real | PInf | NInf | NaN

fun isFinite :: "jsnum \<Rightarrow> bool" where
  "isFinite (Fin _) = True"
| "isFinite _ = False"

fun jneg :: "jsnum \<Rightarrow> jsnum" where
  "jneg (Fin a) = Fin (- a)"
| "jneg PInf = NInf"
| "jneg NInf = PInf"
| "jneg NaN = NaN"

fun jadd :: "jsnum \<Rightarrow> jsnum \<Rightarrow> jsnum" where
  "jadd (Fin a) (Fin b) = Fin (a + b)"
| "jadd NaN _ = NaN"
| "jadd _ NaN = NaN"
| "jadd PInf NInf = NaN"
| "jadd NInf PInf = NaN"
| "jadd PInf _ = PInf"
| "jadd NInf _ = NInf"
| "jadd _ PInf = PInf"
| "jadd _ NInf = NInf"

definition jsub :: "jsnum \<Rightarrow> jsnum \<Rightarrow> jsnum" where
  "jsub a b = jadd a (jneg b)"

text \<open>The sign of an infinite product or quotient: the infinity of the given sign.\<close>

definition signedInf :: "bool \<Rightarrow> jsnum" where
  "signedInf positive = (if positive then PInf else NInf)"

fun jmul :: "jsnum \<Rightarrow> jsnum \<Rightarrow> jsnum" where
  "jmul (Fin a) (Fin b) = Fin (a * b)"
| "jmul NaN _ = NaN"
| "jmul _ NaN = NaN"
| "jmul (Fin a) PInf = (if a = 0 then NaN else signedInf (0 < a))"
| "jmul (Fin a) NInf = (if a = 0 then NaN else signedInf (a < 0))"
| "jmul PInf (Fin b) = (if b = 0 then NaN else signedInf (0 < b))"
| "jmul NInf (Fin b) = (if b = 0 then NaN else signedInf (b < 0))"
| "jmul PInf PInf = PInf"
| "jmul PInf NInf = NInf"
| "jmul NInf PInf = NInf"
| "jmul NInf NInf = PInf"

fun jdiv :: "jsnum \<Rightarrow> jsnum \<Rightarrow> jsnum" where
  "jdiv (Fin a) (Fin b) =
     (if b = 0 then (if a = 0 then NaN else signedInf (0 < a)) else Fin (a / b))"
| "jdiv NaN _ = NaN"
| "jdiv _ NaN = NaN"
| "jdiv (Fin a) PInf = Fin 0"
| "jdiv (Fin a) NInf = Fin 0"
| "jdiv PInf (Fin b) = signedInf (0 \<le> b)"
| "jdiv NInf (Fin b) = signedInf (b < 0)"
| "jdiv PInf PInf = NaN"
| "jdiv PInf NInf = NaN"
| "jdiv NInf PInf = NaN"
| "jdiv NInf NInf = NaN"

section \<open>Statistics and regression\<close>

text \<open>
  The type declarations of the repository (\<open>DataPoint\<close>, \<open>RegressionResult\<close>,
  \<open>Point2D\<close>, \<open>MathError\<close>, \<open>FunctionExpression\<close>, \<open>FunctionType\<close>) are not among
  its sources here: each record below holds the fields that the functions read and write.

  A data point carries its two coordinates (label, colour and size play no part in the
  fits). The coordinates of a dataset are finite numbers.
\<close>

record DataPoint =
  dp_x :: real
  dp_y :: real

datatype regression_kind = Linear | Polynomial | Exponential | Logarithmic

text \<open>
  The result of a fit. The \<open>equation\<close> field of the source is a display string built
  with \<open>toFixed\<close>; it is left out.
\<close>

record RegressionResult =
  rkind :: regression_kind
  rSquared :: jsnum
  coefficients :: "jsnum list"
  residuals :: "jsnum list"

text \<open>The errors the regression functions throw, one constructor per message.\<close>

datatype regression_error =
    NeedTwoPoints
  | NeedDegreePoints int int
  | NeedThreePoints
  | SingularMatrix

text \<open>
  The functions of the statistics library (\<open>simple-statistics\<close>) that the regression
  code calls. The library is not part of the repository: the regression functions take it
  as a parameter.
\<close>

record ss_lib =
  ss_linearRegression :: "(real \<times> real) list \<Rightarrow> jsnum \<times> jsnum"
  ss_mean :: "real list \<Rightarrow> real"

text \<open>
  A concrete library for runs on concrete data: the arithmetic mean and the least-squares
  line \<open>(m, b)\<close>, as the documentation of \<open>simple-statistics\<close> gives them (a single point
  gives the horizontal line through it).
\<close>

definition simple_statistics :: ss_lib where
  "simple_statistics =
     \<lparr> ss_linearRegression = (\<lambda>ps.
         if length ps = 1 then (Fin 0, Fin (snd (hd ps)))
         else
           let n = real (length ps);
               sumX = sum_list (map fst ps);
               sumY = sum_list (map snd ps);
               sumXX = sum_list (map (\<lambda>p. fst p * fst p) ps);
               sumXY = sum_list (map (\<lambda>p. fst p * snd p) ps);
               m = jdiv (Fin (n * sumXY - sumX * sumY)) (Fin (n * sumXX - sumX * sumX));
               b = jsub (jdiv (Fin sumY) (Fin n)) (jdiv (jmul m (Fin sumX)) (Fin n))
           in (m, b)),
       ss_mean = (\<lambda>vs. sum_list vs / real (length vs)) \<rparr>"

text \<open>
  \<open>linearRegression\<close>: the line comes from the library; the two sums of squares are
  accumulated by one pass over the data, the residuals by a second.
\<close>

definition linearRegression :: "ss_lib \<Rightarrow> DataPoint list \<Rightarrow> regression_error + RegressionResult" where
  "linearRegression ss data =
     (if length data < 2 then Inl NeedTwoPoints
      else
        let (m, b) = ss_linearRegression ss (map (\<lambda>p. (dp_x p, dp_y p)) data);
            meanY = ss_mean ss (map dp_y data);
            predicted = (\<lambda>p. jadd (jmul m (Fin (dp_x p))) b);
            totalSumSquares = foldl (\<lambda>acc p. acc + (dp_y p - meanY) * (dp_y p - meanY)) 0 data;
            residualSumSquares =
              foldl (\<lambda>acc p. jadd acc (jmul (jsub (Fin (dp_y p)) (predicted p))
                                            (jsub (Fin (dp_y p)) (predicted p)))) (Fin 0) data
        in Inr \<lparr> rkind = Linear,
                 rSquared = jsub (Fin 1) (jdiv residualSumSquares (Fin totalSumSquares)),
                 coefficients = [b, m],
                 residuals = map (\<lambda>p. jsub (Fin (dp_y p)) (predicted p)) data \<rparr>)"

text \<open>The seven running sums of \<open>quadraticRegression\<close>, updated once per point.\<close>

record quad_sums =
  sumX :: real
  sumX2 :: real
  sumX3 :: real
  sumX4 :: real
  sumY :: real
  sumXY :: real
  sumX2Y :: real

definition quad_zero :: quad_sums where
  "quad_zero = \<lparr> sumX = 0, sumX2 = 0, sumX3 = 0, sumX4 = 0, sumY = 0, sumXY = 0, sumX2Y = 0 \<rparr>"

definition quad_step :: "quad_sums \<Rightarrow> DataPoint \<Rightarrow> quad_sums" where
  "quad_step s p =
     (let x = dp_x p; y = dp_y p; x2 = x * x; x3 = x2 * x; x4 = x2 * x2
      in \<lparr> sumX = sumX s + x, sumX2 = sumX2 s + x2, sumX3 = sumX3 s + x3,
            sumX4 = sumX4 s + x4, sumY = sumY s + y, sumXY = sumXY s + x * y,
            sumX2Y = sumX2Y s + x2 * y \<rparr>)"

text \<open>The determinant of the normal equations, as the source expands it.\<close>

definition quad_det :: "real \<Rightarrow> quad_sums \<Rightarrow> real" where
  "quad_det n s =
     n * (sumX2 s * sumX4 s - sumX3 s * sumX3 s)
     - sumX s * (sumX s * sumX4 s - sumX2 s * sumX3 s)
     + sumX2 s * (sumX s * sumX3 s - sumX2 s * sumX2 s)"

definition quadraticRegression :: "ss_lib \<Rightarrow> DataPoint list \<Rightarrow> regression_error + RegressionResult" where
  "quadraticRegression ss data =
     (let n = real (length data) in
      if length data < 3 then Inl NeedThreePoints
      else
        let s = foldl quad_step quad_zero data;
            det = quad_det n s
        in if \<bar>det\<bar> < 1 / 10 ^ 10 then Inl SingularMatrix
           else
             let c = (sumY s * (sumX2 s * sumX4 s - sumX3 s * sumX3 s)
                      - sumXY s * (sumX s * sumX4 s - sumX2 s * sumX3 s)
                      + sumX2Y s * (sumX s * sumX3 s - sumX2 s * sumX2 s)) / det;
                 b = (n * (sumXY s * sumX4 s - sumX2Y s * sumX3 s)
                      - sumY s * (sumX s * sumX4 s - sumX2 s * sumX3 s)
                      + sumX2Y s * (sumX s * sumX2 s - n * sumX3 s)) / det;
                 a = (n * (sumX2 s * sumX2Y s - sumX3 s * sumXY s)
                      - sumX s * (sumX s * sumX2Y s - sumX2 s * sumXY s)
                      + sumY s * (sumX s * sumX3 s - sumX2 s * sumX2 s)) / det;
                 meanY = ss_mean ss (map dp_y data);
                 predicted = (\<lambda>p. a * dp_x p * dp_x p + b * dp_x p + c);
                 totalSumSquares =
                   foldl (\<lambda>acc p. acc + (dp_y p - meanY) * (dp_y p - meanY)) 0 data;
                 residualSumSquares =
                   foldl (\<lambda>acc p. acc + (dp_y p - predicted p) * (dp_y p - predicted p)) 0 data
             in Inr \<lparr> rkind = Polynomial,
                      rSquared = jsub (Fin 1) (jdiv (Fin residualSumSquares) (Fin totalSumSquares)),
                      coefficients = [Fin c, Fin b, Fin a],
                      residuals = map (\<lambda>p. Fin (dp_y p - predicted p)) data \<rparr>)"

text \<open>
  \<open>polynomialRegression\<close>: the size guard first, then degree 2 goes to the quadratic
  fit and every other degree to the linear one. The degree is an integer.
\<close>

definition polynomialRegression ::
  "ss_lib \<Rightarrow> DataPoint list \<Rightarrow> int \<Rightarrow> regression_error + RegressionResult" where
  "polynomialRegression ss data degree =
     (if int (length data) < degree + 1 then Inl (NeedDegreePoints (degree + 1) degree)
      else if degree = 2 then quadraticRegression ss data
      else linearRegression ss data)"

section \<open>Strings\<close>

text \<open>
  A JavaScript string is a sequence of UTF-16 code units, modelled as natural numbers.
  \<open>asc\<close> turns an ASCII literal into such a sequence.
\<close>

type_synonym jschar = nat
type_synonym jsstring = "nat list"

definition asc :: "string \<Rightarrow> jsstring" where
  "asc s = map of_char s"

text \<open>The character classes of the regular expressions: \<open>\w\<close>, \<open>\d\<close>, \<open>\s\<close>
  (which is also what \<open>trim\<close> strips) and the line terminators that \<open>.\<close> does not match.\<close>

definition isWordChar :: "jschar \<Rightarrow> bool" where
  "isWordChar c = ((48 \<le> c \<and> c \<le> 57) \<or> (65 \<le> c \<and> c \<le> 90) \<or> c = 95 \<or> (97 \<le> c \<and> c \<le> 122))"

definition isDigit :: "jschar \<Rightarrow> bool" where
  "isDigit c = (48 \<le> c \<and> c \<le> 57)"

definition isLineTerminator :: "jschar \<Rightarrow> bool" where
  "isLineTerminator c = (c = 10 \<or> c = 13 \<or> c = 8232 \<or> c = 8233)"

definition isSpace :: "jschar \<Rightarrow> bool" where
  "isSpace c = ((9 \<le> c \<and> c \<le> 13) \<or> c = 32 \<or> c = 160 \<or> c = 5760
                \<or> (8192 \<le> c \<and> c \<le> 8202) \<or> c = 8232 \<or> c = 8233 \<or> c = 8239
                \<or> c = 8287 \<or> c = 12288 \<or> c = 65279)"

definition trim :: "jsstring \<Rightarrow> jsstring" where
  "trim s = rev (dropWhile isSpace (rev (dropWhile isSpace s)))"

text \<open>
  \<open>\b\<close> holds at a position when exactly one of the characters before and after it is
  a word character; the ends of the string count as non-word. \<open>pw\<close> says whether the
  character before the position is a word character, \<open>s\<close> is the rest of the string.
\<close>

definition wordBoundary :: "bool \<Rightarrow> jsstring \<Rightarrow> bool" where
  "wordBoundary pw s = (pw \<noteq> (case s of [] \<Rightarrow> False | c # _ \<Rightarrow> isWordChar c))"

text \<open>
  \<open>s.replace(re, '')\<close> for a global regular expression that never matches the empty
  string: the scan goes left to right; where the expression matches, the matched characters
  are dropped and the scan resumes behind them; elsewhere the character is kept. The matcher
  \<open>m pw s\<close> gives the length of the match at the head of \<open>s\<close>, if there is one. The
  first argument counts the characters of the current match still to drop.
\<close>

fun removeMatches :: "(bool \<Rightarrow> jsstring \<Rightarrow> nat option) \<Rightarrow> nat \<Rightarrow> bool \<Rightarrow> jsstring \<Rightarrow> jsstring" where
  "removeMatches m k pw [] = []"
| "removeMatches m (Suc k) pw (c # cs) = removeMatches m k (isWordChar c) cs"
| "removeMatches m 0 pw (c # cs) =
     (case m pw (c # cs) of
        Some (Suc k) \<Rightarrow> removeMatches m k (isWordChar c) cs
      | _ \<Rightarrow> c # removeMatches m 0 (isWordChar c) cs)"

text \<open>\<open>s.replace(/c/g, r)\<close> for a single character \<open>c\<close>.\<close>

definition replaceChar :: "jschar \<Rightarrow> jsstring \<Rightarrow> jsstring \<Rightarrow> jsstring" where
  "replaceChar c r s = concat (map (\<lambda>d. if d = c then r else [d]) s)"

section \<open>The expression sanitizer\<close>

text \<open>The character class of the first replacement: the three quotes and the semicolon.\<close>

definition isQuoteOrSemicolon :: "jschar \<Rightarrow> bool" where
  "isQuoteOrSemicolon c = (c = 39 \<or> c = 34 \<or> c = 96 \<or> c = 59)"

definition dangerousKeywords :: "jsstring list" where
  "dangerousKeywords = [asc ''eval'', asc ''Function'', asc ''require'', asc ''import'', asc ''export'']"

text \<open>
  \<open>/\b(eval|Function|require|import|export)\b/\<close> at the head of \<open>s\<close>: the first
  alternative, in the order written, that is a prefix of \<open>s\<close> and ends at a word boundary.
\<close>

definition matchKeyword :: "bool \<Rightarrow> jsstring \<Rightarrow> nat option" where
  "matchKeyword pw s =
     (if wordBoundary pw s then
        (case find (\<lambda>k. prefix k s \<and> wordBoundary (isWordChar (last k)) (drop (length k) s)) dangerousKeywords of
           Some k \<Rightarrow> Some (length k)
         | None \<Rightarrow> None)
      else None)"

text \<open>\<open>/\.\./\<close> at the head of \<open>s\<close>.\<close>

definition matchDotDot :: "bool \<Rightarrow> jsstring \<Rightarrow> nat option" where
  "matchDotDot pw s = (case s of a # b # _ \<Rightarrow> if a = 46 \<and> b = 46 then Some 2 else None | _ \<Rightarrow> None)"

text \<open>
  \<open>/\$\{.*?\}/\<close> at the head of \<open>s\<close>: \<open>${\<close>, then lazily any characters but line
  terminators, up to the first closing brace.
\<close>

definition matchTemplate :: "bool \<Rightarrow> jsstring \<Rightarrow> nat option" where
  "matchTemplate pw s =
     (case s of
        a # b # rest \<Rightarrow>
          if a = 36 \<and> b = 123 then
            (let inner = takeWhile (\<lambda>c. c \<noteq> 125) rest in
             if length inner < length rest \<and> list_all (\<lambda>c. \<not> isLineTerminator c) inner
             then Some (length inner + 3) else None)
          else None
      | _ \<Rightarrow> None)"

text \<open>The Unicode symbols that are rewritten, by code unit.\<close>

definition sym_times :: jschar where "sym_times = 215"
definition sym_divide :: jschar where "sym_divide = 247"
definition sym_pi :: jschar where "sym_pi = 960"
definition sym_sqrt :: jschar where "sym_sqrt = 8730"
definition sym_infinity :: jschar where "sym_infinity = 8734"
definition sym_plusminus :: jschar where "sym_plusminus = 177"
definition sym_approx :: jschar where "sym_approx = 8776"

definition removeDangerous :: "jsstring \<Rightarrow> jsstring" where
  "removeDangerous expression =
     removeMatches matchTemplate 0 False
       (removeMatches matchDotDot 0 False
         (removeMatches matchKeyword 0 False
           (filter (\<lambda>c. \<not> isQuoteOrSemicolon c) expression)))"

definition replaceNotation :: "jsstring \<Rightarrow> jsstring" where
  "replaceNotation s =
     replaceChar sym_approx (asc ''=='')
       (replaceChar sym_plusminus (asc ''+'')
         (replaceChar sym_infinity (asc ''Infinity'')
           (replaceChar sym_sqrt (asc ''sqrt'')
             (replaceChar sym_pi (asc ''pi'')
               (replaceChar sym_divide (asc ''/'')
                 (replaceChar sym_times (asc ''*'') s))))))"

definition sanitizeExpression :: "jsstring \<Rightarrow> jsstring" where
  "sanitizeExpression expression = trim (replaceNotation (removeDangerous expression))"

section \<open>The safe evaluator\<close>

text \<open>
  What a JavaScript \<open>throw\<close> carries: an \<open>Error\<close> instance with its message, or
  any other value.
\<close>

datatype thrown = ErrorInstance string | NonError

text \<open>
  The value an expression evaluates to, as far as \<open>safeEvaluate\<close> looks at it: a
  number; a complex number (the object that has an \<open>im\<close> property), with its two
  parts; \<open>null\<close>; or anything else (a boolean, a string, \<open>undefined\<close>, a matrix, a
  function: not a number and without an \<open>im\<close> property).
\<close>

datatype raw = RNumber jsnum | RComplex jsnum jsnum | RNull | ROther

type_synonym scope = "jsstring \<rightharpoonup> jsnum"

text \<open>
  The expression engine (\<open>mathjs\<close>) is not part of the repository: \<open>parse\<close> and the
  node's \<open>evaluate\<close> are parameters. Both may throw.
\<close>

record 'n mathjs =
  mj_parse :: "jsstring \<Rightarrow> thrown + 'n"
  mj_evaluate :: "'n \<Rightarrow> scope \<Rightarrow> thrown + raw"

text \<open>
  Modelled from the spec: the declaration of \<open>MathError\<close> is missing; the four kinds of
  error are those of the evaluator's contract. The code raises \<open>syntax\<close> and
  \<open>computation\<close> only.
\<close>

datatype error_kind = ESyntax | EDomain | EComputation | EOverflow

record MathError =
  kind :: error_kind
  message :: string
  suggestions :: "string list"

text \<open>The object \<open>safeEvaluate\<close> returns: \<open>None\<close> stands for \<open>null\<close>.\<close>

record Evaluation =
  result :: "jsnum option"
  error :: "MathError option"

text \<open>The \<open>TypeError\<close> of \<open>'im' in null\<close>.\<close>

definition inOperatorTypeError :: thrown where
  "inOperatorTypeError =
     ErrorInstance (''Cannot use '' @ [CHR 0x27] @ ''in'' @ [CHR 0x27] @ '' operator to search for ''
                    @ [CHR 0x27] @ ''im'' @ [CHR 0x27] @ '' in null'')"

definition computationError :: Evaluation where
  "computationError =
     \<lparr> result = None,
       error = Some \<lparr> kind = EComputation,
                      message = ''Result is not a finite number'',
                      suggestions = [''Check for division by zero'', ''Verify domain restrictions''] \<rparr> \<rparr>"

text \<open>The body of the \<open>try\<close> block: \<open>Inl\<close> is an exception on its way out.\<close>

definition safeEvaluate_try :: "'n mathjs \<Rightarrow> jsstring \<Rightarrow> scope \<Rightarrow> thrown + Evaluation" where
  "safeEvaluate_try M expression variables =
     (let sanitized = sanitizeExpression expression in
      case mj_parse M sanitized of
        Inl t \<Rightarrow> Inl t
      | Inr node \<Rightarrow>
          (case mj_evaluate M node variables of
             Inl t \<Rightarrow> Inl t
           | Inr r \<Rightarrow>
               (case r of
                  RNull \<Rightarrow> Inl inOperatorTypeError
                | RComplex re im \<Rightarrow> Inr \<lparr> result = Some re, error = None \<rparr>
                | RNumber v \<Rightarrow>
                    if \<not> isFinite v then Inr computationError
                    else Inr \<lparr> result = Some v, error = None \<rparr>
                | ROther \<Rightarrow> Inr computationError)))"

text \<open>The \<open>catch\<close> clause.\<close>

definition safeEvaluate_catch :: "thrown \<Rightarrow> thrown + Evaluation" where
  "safeEvaluate_catch t =
     Inr \<lparr> result = None,
           error = Some \<lparr> kind = ESyntax,
                          message = (case t of ErrorInstance m \<Rightarrow> m | NonError \<Rightarrow> ''Unknown error''),
                          suggestions = [''Check syntax'', ''Verify function names'', ''Check parentheses''] \<rparr> \<rparr>"

definition safeEvaluate :: "'n mathjs \<Rightarrow> jsstring \<Rightarrow> scope \<Rightarrow> thrown + Evaluation" where
  "safeEvaluate M expression variables =
     (case safeEvaluate_try M expression variables of
        Inl t \<Rightarrow> safeEvaluate_catch t
      | Inr r \<Rightarrow> Inr r)"

section \<open>Samplers\<close>

record Point2D =
  pt_x :: real
  pt_y :: real


record FunctionExpression =
  expression :: jsstring







section \<open>Numerical integration\<close>

text \<open>
  The two accumulation loops of \<open>numericalIntegral\<close> differ in their first index and in
  the weight (4 at the odd points, 2 at the even ones); one function takes both. It returns
  \<open>Inr None\<close> where the source returns \<open>null\<close>, and the new value of \<open>sum\<close> otherwise.
\<close>

function simpsonLoop ::
  "'n mathjs \<Rightarrow> jsstring \<Rightarrow> scope \<Rightarrow> real \<Rightarrow> jsnum \<Rightarrow> real \<Rightarrow> nat \<Rightarrow> nat \<Rightarrow> jsnum
     \<Rightarrow> thrown + jsnum option" where
  "simpsonLoop M expr variables a h weight i n acc =
     (if i < n then
        (let x = jadd (Fin a) (jmul (Fin (real i)) h) in
         case safeEvaluate M expr (variables(asc ''x'' \<mapsto> x)) of
           Inl t \<Rightarrow> Inl t
         | Inr fx \<Rightarrow>
             (case result fx of
                None \<Rightarrow> Inr None
              | Some v \<Rightarrow>
                  simpsonLoop M expr variables a h weight (i + 2) n (jadd acc (jmul (Fin weight) v))))
      else Inr (Some acc))"
  by pat_completeness auto
termination
  by (relation "measure (\<lambda>(M, expr, variables, a, h, weight, i, n, acc). n - i)") auto

declare simpsonLoop.simps [simp del]

text \<open>
  \<open>numericalIntegral\<close>: the bounds are finite numbers and \<open>n\<close> is a count. \<open>None\<close>
  is the \<open>null\<close> result.
\<close>

definition numericalIntegral ::
  "'n mathjs \<Rightarrow> jsstring \<Rightarrow> real \<Rightarrow> real \<Rightarrow> nat \<Rightarrow> scope \<Rightarrow> thrown + jsnum option" where
  "numericalIntegral M expr a b n0 additionalVariables =
     (let n = (if n0 mod 2 \<noteq> 0 then n0 + 1 else n0);
          h = jdiv (Fin (b - a)) (Fin (real n));
          variables = additionalVariables
      in case safeEvaluate M expr (variables(asc ''x'' \<mapsto> Fin a)) of
           Inl t \<Rightarrow> Inl t
         | Inr fa \<Rightarrow>
             (case safeEvaluate M expr (variables(asc ''x'' \<mapsto> Fin b)) of
                Inl t \<Rightarrow> Inl t
              | Inr fb \<Rightarrow>
                  (case (result fa, result fb) of
                     (Some va, Some vb) \<Rightarrow>
                       (case simpsonLoop M expr variables a h 4 1 n (jadd (Fin 0) (jadd va vb)) of
                          Inl t \<Rightarrow> Inl t
                        | Inr None \<Rightarrow> Inr None
                        | Inr (Some sum1) \<Rightarrow>
                            (case simpsonLoop M expr variables a h 2 2 n sum1 of
                               Inl t \<Rightarrow> Inl t
                             | Inr None \<Rightarrow> Inr None
                             | Inr (Some sum2) \<Rightarrow> Inr (Some (jmul (jdiv h (Fin 3)) sum2))))
                   | _ \<Rightarrow> Inr None)))"

section \<open>The function classifier\<close>

datatype FunctionType =
    TLinear | TQuadratic | TPolynomial | TTrigonometric | TLogarithmic | TExponential
  | TParametric | TPolar | TImplicit | TPiecewise | TRecursive | TComplex

text \<open>\<open>toLowerCase\<close>, on the letters A to Z; other code units are left as they are.\<close>

definition toLowerCase :: "jsstring \<Rightarrow> jsstring" where
  "toLowerCase s = map (\<lambda>c. if 65 \<le> c \<and> c \<le> 90 then c + 32 else c) s"

fun str_includes :: "jsstring \<Rightarrow> jsstring \<Rightarrow> bool" where
  "str_includes [] sub = (sub = [])"
| "str_includes (c # cs) sub = (prefix sub (c # cs) \<or> str_includes cs sub)"

definition startsWith :: "jsstring \<Rightarrow> jsstring \<Rightarrow> bool" where
  "startsWith s p = prefix p s"

text \<open>\<open>re.test(s)\<close>: the expression matches at some position of the string.\<close>

fun regexTest :: "(bool \<Rightarrow> jsstring \<Rightarrow> bool) \<Rightarrow> bool \<Rightarrow> jsstring \<Rightarrow> bool" where
  "regexTest m pw [] = m pw []"
| "regexTest m pw (c # cs) = (m pw (c # cs) \<or> regexTest m (isWordChar c) cs)"

text \<open>\<open>\s*\^\s*x\<close> at the head of a string.\<close>

definition caretX :: "jsstring \<Rightarrow> bool" where
  "caretX r =
     (case dropWhile isSpace r of
        c # r2 \<Rightarrow> c = 94 \<and> (case dropWhile isSpace r2 of d # _ \<Rightarrow> d = 120 | [] \<Rightarrow> False)
      | [] \<Rightarrow> False)"

text \<open>
  \<open>/\b\d+\s*\^\s*x|\be\s*\^\s*x/\<close> at the head of \<open>s\<close>. What follows the digits is
  neither a digit nor white space before the caret, so taking all the digits and all the
  white space loses no match.
\<close>

definition matchExponential :: "bool \<Rightarrow> jsstring \<Rightarrow> bool" where
  "matchExponential pw s =
     (wordBoundary pw s \<and>
      (case s of
         [] \<Rightarrow> False
       | c # r \<Rightarrow> (isDigit c \<and> caretX (dropWhile isDigit r)) \<or> (c = 101 \<and> caretX r)))"

text \<open>
  \<open>s.match(re)\<close> for a global expression: the matched substrings, left to right, without
  overlap. The matcher gives the length of the match at the head of its argument.
\<close>

fun matchAll :: "(jsstring \<Rightarrow> nat option) \<Rightarrow> nat \<Rightarrow> jsstring \<Rightarrow> jsstring list" where
  "matchAll m k [] = []"
| "matchAll m (Suc k) (c # cs) = matchAll m k cs"
| "matchAll m 0 (c # cs) =
     (case m (c # cs) of
        Some (Suc k) \<Rightarrow> take (Suc k) (c # cs) # matchAll m k cs
      | _ \<Rightarrow> matchAll m 0 cs)"

text \<open>\<open>/x\s*\^\s*(\d+)/\<close> at the head of \<open>s\<close>: the length of the match.\<close>

definition matchPower :: "jsstring \<Rightarrow> nat option" where
  "matchPower s =
     (case s of
        c # r \<Rightarrow>
          if c = 120 then
            (case dropWhile isSpace r of
               d # r2 \<Rightarrow>
                 if d = 94 then
                   (let r3 = dropWhile isSpace r2 in
                    if takeWhile isDigit r3 = [] then None
                    else Some (length s - length (dropWhile isDigit r3)))
                 else None
             | [] \<Rightarrow> None)
          else None
      | [] \<Rightarrow> None)"

text \<open>The number of repetitions of \<open>*x\<close> at the head of a string.\<close>

fun timesXs :: "jsstring \<Rightarrow> nat" where
  "timesXs (a # b # r) = (if a = 42 \<and> b = 120 then Suc (timesXs r) else 0)"
| "timesXs _ = 0"

text \<open>\<open>/x(\*x)+/\<close> at the head of \<open>s\<close>: the length of the match.\<close>

definition matchMultiplication :: "jsstring \<Rightarrow> nat option" where
  "matchMultiplication s =
     (case s of
        c # r \<Rightarrow> if c = 120 \<and> 0 < timesXs r then Some (1 + 2 * timesXs r) else None
      | [] \<Rightarrow> None)"

text \<open>\<open>match.match(/(\d+)/)\<close>: the first run of digits of a string, read by \<open>parseInt\<close>.\<close>

definition firstDigits :: "jsstring \<Rightarrow> jsstring" where
  "firstDigits s = takeWhile isDigit (dropWhile (\<lambda>c. \<not> isDigit c) s)"

definition parseInt :: "jsstring \<Rightarrow> nat" where
  "parseInt ds = foldl (\<lambda>a d. 10 * a + (d - 48)) 0 ds"

definition getPolynomialDegree :: "jsstring \<Rightarrow> nat" where
  "getPolynomialDegree expr =
     (let clean = toLowerCase (filter (\<lambda>c. \<not> isSpace c) expr);
          powerMatches = matchAll matchPower 0 clean;
          maxDegree1 =
            foldl (\<lambda>maxDegree mtch.
                     if firstDigits mtch = [] then maxDegree
                     else max maxDegree (parseInt (firstDigits mtch))) 0 powerMatches;
          multiplicationMatches = matchAll matchMultiplication 0 clean;
          maxDegree2 =
            foldl (\<lambda>maxDegree mtch. max maxDegree (length (filter (\<lambda>c. c = 120) mtch)))
              maxDegree1 multiplicationMatches
      in if maxDegree2 = 0 \<and> str_includes clean (asc ''x'') then 1 else maxDegree2)"

definition trigFunctions :: "jsstring list" where
  "trigFunctions = [asc ''sin'', asc ''cos'', asc ''tan'', asc ''sec'', asc ''csc'', asc ''cot'',
                    asc ''asin'', asc ''acos'', asc ''atan'']"

definition logFunctions :: "jsstring list" where
  "logFunctions = [asc ''log'', asc ''ln'', asc ''log10'', asc ''log2'']"

definition expFunctions :: "jsstring list" where
  "expFunctions = [asc ''exp'', asc ''e^'']"

definition detectFunctionType :: "jsstring \<Rightarrow> FunctionType" where
  "detectFunctionType expr =
     (if expr = [] \<or> trim expr = [] then TPolynomial
      else
        let cleanExpression = trim (toLowerCase expr) in
        if list_ex (str_includes cleanExpression) trigFunctions then TTrigonometric
        else if list_ex (str_includes cleanExpression) logFunctions then TLogarithmic
        else if list_ex (str_includes cleanExpression) expFunctions
                \<or> regexTest matchExponential False cleanExpression then TExponential
        else if str_includes cleanExpression (asc ''t'')
                \<and> (str_includes cleanExpression (asc ''x(t)'') \<or> str_includes cleanExpression (asc ''y(t)'')
                     \<or> str_includes cleanExpression (asc ''x='') \<or> str_includes cleanExpression (asc ''y=''))
             then TParametric
        else if str_includes cleanExpression (asc ''theta'') \<or> str_includes cleanExpression [952]
                \<or> (str_includes cleanExpression (asc ''r'') \<and> \<not> str_includes cleanExpression (asc ''sqrt''))
             then TPolar
        else if str_includes cleanExpression (asc ''x'') \<and> str_includes cleanExpression (asc ''y'')
                \<and> \<not> startsWith cleanExpression (asc ''y='')
                \<and> \<not> startsWith cleanExpression (asc ''f(x)='')
             then TImplicit
        else if str_includes cleanExpression (asc ''{'') \<or> str_includes cleanExpression (asc ''if'')
                \<or> str_includes cleanExpression (asc ''?'') \<or> str_includes cleanExpression (asc '':'')
             then TPiecewise
        else
          let degree = getPolynomialDegree cleanExpression in
          if degree = 1 then TLinear
          else if degree = 2 then TQuadratic
          else if degree > 0 then TPolynomial
          else TPolynomial)"

section \<open>Curve simplification\<close>

text \<open>
  \<open>distanceToLine\<close>: the distance from a point to the segment between two points (the
  parameter of the foot is clamped to the segment).
\<close>

definition distanceToLine :: "Point2D \<Rightarrow> Point2D \<Rightarrow> Point2D \<Rightarrow> real" where
  "distanceToLine point lineStart lineEnd =
     (let A = pt_x lineEnd - pt_x lineStart;
          B = pt_y lineEnd - pt_y lineStart;
          C = pt_x lineStart - pt_x point;
          D = pt_y lineStart - pt_y point;
          dot = A * C + B * D;
          lenSq = A * A + B * B
      in if lenSq = 0 then sqrt (C * C + D * D)
         else
           let param = - dot / lenSq;
               xx = (if param < 0 then pt_x lineStart
                     else if param > 1 then pt_x lineEnd
                     else pt_x lineStart + param * A);
               yy = (if param < 0 then pt_y lineStart
                     else if param > 1 then pt_y lineEnd
                     else pt_y lineStart + param * B);
               dx = pt_x point - xx;
               dy = pt_y point - yy
           in sqrt (dx * dx + dy * dy))"

text \<open>
  The search loop of \<open>douglasPeucker\<close>: the pair \<open>(maxDistance, maxIndex)\<close> after the
  interior indices have been visited in order, starting from \<open>(0, 0)\<close>.
\<close>

definition findMax :: "Point2D list \<Rightarrow> Point2D \<Rightarrow> Point2D \<Rightarrow> real \<times> nat" where
  "findMax points first lst =
     foldl (\<lambda>(maxDistance, maxIndex) i.
              let distance = distanceToLine (points ! i) first lst in
              if distance > maxDistance then (distance, i) else (maxDistance, maxIndex))
       (0, 0) [1 ..< length points - 1]"

text \<open>
  \<open>douglasPeucker\<close>. The recursion need not end (with a negative tolerance and no
  interior point off the chord, the right half is the whole list again): not returning is
  \<open>None\<close>. \<open>points.slice(0, maxIndex + 1)\<close> is \<open>take\<close>, \<open>points.slice(maxIndex)\<close> is
  \<open>drop\<close>, and \<open>left.slice(0, -1)\<close> is \<open>butlast\<close>.
\<close>

partial_function (option) douglasPeucker :: "Point2D list \<Rightarrow> real \<Rightarrow> Point2D list option" where
  "douglasPeucker points tolerance =
     (if length points \<le> 2 then Some points
      else
        let first = points ! 0;
            lst = points ! (length points - 1);
            found = findMax points first lst;
            maxDistance = fst found;
            maxIndex = snd found
        in if maxDistance > tolerance then
             Option.bind (douglasPeucker (take (maxIndex + 1) points) tolerance) (\<lambda>left.
               Option.bind (douglasPeucker (drop maxIndex points) tolerance) (\<lambda>right.
                 Some (butlast left @ right)))
           else Some [first, lst])"

definition simplifyPoints :: "Point2D list \<Rightarrow> real \<Rightarrow> Point2D list option" where
  "simplifyPoints points tolerance =
     (if length points \<le> 2 then Some points else douglasPeucker points tolerance)"

section \<open>Engines for concrete runs\<close>

text \<open>
  The outcome of the engine on an expression: \<open>parse\<close> on the sanitized string, then
  the node's \<open>evaluate\<close> on the scope.
\<close>

definition engineOutcome :: "'n mathjs \<Rightarrow> jsstring \<Rightarrow> scope \<Rightarrow> thrown + raw" where
  "engineOutcome M expr variables =
     (case mj_parse M (sanitizeExpression expr) of
        Inl t \<Rightarrow> Inl t
      | Inr node \<Rightarrow> mj_evaluate M node variables)"

text \<open>
  Small engines stand in for \<open>mathjs\<close> where a run needs a concrete one: an engine on
  which the expression at hand evaluates to a given value (as \<open>1 + i\<close> evaluates to a
  complex number), and one on which it throws.
\<close>

definition engineReturning :: "raw \<Rightarrow> unit mathjs" where
  "engineReturning r = \<lparr> mj_parse = (\<lambda>s. Inr ()), mj_evaluate = (\<lambda>node sc. Inr r) \<rparr>"



section \<open>Notions used in the statements\<close>


text \<open>
  A simplified polyline keeps the ends: it is the first point of the input, then a
  subsequence of the interior points in their order, then the last point.
\<close>

definition keepsEnds :: "Point2D list \<Rightarrow> Point2D list \<Rightarrow> bool" where
  "keepsEnds points out =
     (\<exists>mid. out = hd points # mid @ [last points] \<and> subseq mid (butlast (tl points)))"

text \<open>The body of the search loop of \<open>douglasPeucker\<close>, one index at a time.\<close>

definition dpStep :: "Point2D list \<Rightarrow> Point2D \<Rightarrow> Point2D \<Rightarrow> real \<times> nat \<Rightarrow> nat \<Rightarrow> real \<times> nat" where
  "dpStep points first lst = (\<lambda>(maxDistance, maxIndex) i.
              let distance = distanceToLine (points ! i) first lst in
              if distance > maxDistance then (distance, i) else (maxDistance, maxIndex))"

text \<open>
  The walk of a sampling loop over a range with a positive step: the loop variable starts at
  the minimum and grows by the step while it does not exceed the maximum. \<open>stepCount\<close>
  is the number of iterations, \<open>stepsFrom\<close> the values the variable takes.
\<close>

definition stepCount :: "real \<Rightarrow> real \<Rightarrow> real \<Rightarrow> nat" where
  "stepCount lo hi step = (if lo \<le> hi then nat \<lfloor>(hi - lo) / step\<rfloor> + 1 else 0)"






text \<open>
  The \<open>result\<close> field of \<open>safeEvaluate\<close> with the variable \<open>x\<close> set to a given
  number: what \<open>numericalIntegral\<close> reads at a sample point.
\<close>

definition resultAt :: "'n mathjs \<Rightarrow> jsstring \<Rightarrow> scope \<Rightarrow> jsnum \<Rightarrow> jsnum option" where
  "resultAt M expr variables x =
     (case safeEvaluate M expr (variables(asc ''x'' \<mapsto> x)) of
        Inr ev \<Rightarrow> result ev
      | Inl t \<Rightarrow> None)"

text \<open>
  A keyword stands at the head of a string: one of the keywords is a prefix of it and ends
  there at a word boundary. \<open>noMatch\<close> says that the keyword expression matches at no
  position of a string (\<open>pw\<close> tells whether a word character precedes it).
\<close>

definition endsWord :: "jsstring \<Rightarrow> jsstring \<Rightarrow> bool" where
  "endsWord k s = (case drop (length k) s of [] \<Rightarrow> True | c # _ \<Rightarrow> \<not> isWordChar c)"

definition kwAt :: "jsstring \<Rightarrow> bool" where
  "kwAt s = (\<exists>k \<in> set dangerousKeywords. prefix k s \<and> endsWord k s)"




section \<open>Evaluation rules\<close>

lemmas char_class_defs =
  isWordChar_def isDigit_def isSpace_def isLineTerminator_def wordBoundary_def


lemmas classifier_defs =
  detectFunctionType_def getPolynomialDegree_def trigFunctions_def logFunctions_def
  expFunctions_def toLowerCase_def trim_def startsWith_def matchExponential_def caretX_def
  matchPower_def matchMultiplication_def firstDigits_def parseInt_def asc_def

lemmas evaluator_defs =
  safeEvaluate_def safeEvaluate_try_def safeEvaluate_catch_def computationError_def
  engineOutcome_def

section \<open>The safe evaluator: results\<close>

lemma safeEvaluate_returns: "\<exists>r. safeEvaluate M e s = Inr r"
  by (simp add: safeEvaluate_def safeEvaluate_try_def safeEvaluate_catch_def Let_def
      split: sum.splits raw.splits)







section \<open>Regression: results\<close>








text \<open>
  C7 (as amended). For every degree other than 2, \<open>polynomialRegression\<close> first requires
  \<open>degree + 1\<close> points and raises when there are fewer; with at least \<open>degree + 1\<close>
  points it returns what \<open>linearRegression\<close> returns on the same data.
\<close>

theorem C7_polynomial_falls_back_to_linear:
  assumes "degree \<noteq> 2"
  shows "polynomialRegression ss data degree =
           (if int (length data) < degree + 1 then Inl (NeedDegreePoints (degree + 1) degree)
            else linearRegression ss data)"
  using assms by (simp add: polynomialRegression_def)

theorem C7_witness:
  "polynomialRegression simple_statistics
     [\<lparr> dp_x = 0, dp_y = 0 \<rparr>, \<lparr> dp_x = 1, dp_y = 2 \<rparr>, \<lparr> dp_x = 2, dp_y = 4 \<rparr>, \<lparr> dp_x = 3, dp_y = 6 \<rparr>] 3
   = linearRegression simple_statistics
     [\<lparr> dp_x = 0, dp_y = 0 \<rparr>, \<lparr> dp_x = 1, dp_y = 2 \<rparr>, \<lparr> dp_x = 2, dp_y = 4 \<rparr>, \<lparr> dp_x = 3, dp_y = 6 \<rparr>]"
  using C7_polynomial_falls_back_to_linear
    [of 3 simple_statistics
        "[\<lparr> dp_x = 0, dp_y = 0 \<rparr>, \<lparr> dp_x = 1, dp_y = 2 \<rparr>, \<lparr> dp_x = 2, dp_y = 4 \<rparr>, \<lparr> dp_x = 3, dp_y = 6 \<rparr>]"]
  by simp

text \<open>
  The claim as stated fails for degree 3 on two points: \<open>polynomialRegression\<close> raises,
  \<open>linearRegression\<close> returns the line through the two points.
\<close>

theorem C7_counterexample:
  "polynomialRegression simple_statistics [\<lparr> dp_x = 0, dp_y = 0 \<rparr>, \<lparr> dp_x = 1, dp_y = 1 \<rparr>] 3
     = Inl (NeedDegreePoints 4 3)
   \<and> linearRegression simple_statistics [\<lparr> dp_x = 0, dp_y = 0 \<rparr>, \<lparr> dp_x = 1, dp_y = 1 \<rparr>]
     = Inr \<lparr> rkind = Linear, rSquared = Fin 1, coefficients = [Fin 0, Fin 1],
             residuals = [Fin 0, Fin 0] \<rparr>"
  by (simp add: polynomialRegression_def linearRegression_def simple_statistics_def Let_def jsub_def)

section \<open>The function classifier: results\<close>

text \<open>
  C9. The classifier returns \<open>trigonometric\<close> for \<open>sin(x)\<close>, \<open>quadratic\<close> for
  \<open>x^2+2*x+1\<close> and \<open>polynomial\<close> for the empty string.
\<close>

theorem C9_detectFunctionType_examples:
  "detectFunctionType (asc ''sin(x)'') = TTrigonometric
   \<and> detectFunctionType (asc ''x^2+2*x+1'') = TQuadratic
   \<and> detectFunctionType [] = TPolynomial"
  by (simp add: classifier_defs char_class_defs Let_def)

section \<open>Curve simplification: results\<close>

lemma distanceToLine_nonneg: "0 \<le> distanceToLine p a b"
  by (simp add: distanceToLine_def Let_def)


lemma findMax_dpStep: "findMax points first lst = foldl (dpStep points first lst) (0, 0) [1 ..< length points - 1]"
  by (simp add: findMax_def dpStep_def)

lemma foldl_dpStep_inv:
  assumes "(md = 0 \<and> mi = 0) \<or> (0 < md \<and> 1 \<le> mi \<and> mi < n)"
    and "\<forall>i \<in> set js. 1 \<le> i \<and> i < n"
    and "foldl (dpStep points first lst) (md, mi) js = (md', mi')"
  shows "(md' = 0 \<and> mi' = 0) \<or> (0 < md' \<and> 1 \<le> mi' \<and> mi' < n)"
  using assms
proof (induction js arbitrary: md mi)
  case Nil
  then show ?case by simp
next
  case (Cons j js)
  obtain md1 mi1 where st: "dpStep points first lst (md, mi) j = (md1, mi1)"
    by (cases "dpStep points first lst (md, mi) j") auto
  have "(md1 = 0 \<and> mi1 = 0) \<or> (0 < md1 \<and> 1 \<le> mi1 \<and> mi1 < n)"
    using st Cons.prems(1,2) by (auto simp: dpStep_def Let_def split: if_splits)
  then show ?case
    using Cons.IH [of md1 mi1] Cons.prems(2,3) st by simp
qed

lemma findMax_range:
  assumes "findMax points first lst = (md, mi)"
  shows "(md = 0 \<and> mi = 0) \<or> (0 < md \<and> 1 \<le> mi \<and> mi < length points - 1)"
  using foldl_dpStep_inv [of 0 0 "length points - 1" "[1 ..< length points - 1]" points first lst md mi] assms
  by (simp add: findMax_dpStep)



lemma inner_split:
  assumes "1 \<le> mi" and "mi < length points - 1"
  shows "butlast (tl points) =
           butlast (tl (take (Suc mi) points)) @ points ! mi # butlast (tl (drop mi points))"
proof -
  have lt: "mi < length points" using assms by simp
  have pts: "points = take mi points @ points ! mi # drop (Suc mi) points"
    using lt by (simp add: id_take_nth_drop [symmetric])
  have ne1: "take mi points \<noteq> []" using assms by auto
  have ne2: "drop (Suc mi) points \<noteq> []" using assms by auto
  have a: "butlast (tl (take (Suc mi) points)) = tl (take mi points)"
    using lt ne1 by (simp add: take_Suc_conv_app_nth)
  have b: "butlast (tl (drop mi points)) = butlast (drop (Suc mi) points)"
    using lt by (simp add: Cons_nth_drop_Suc [symmetric])
  have "butlast (tl points) = butlast (tl (take mi points @ points ! mi # drop (Suc mi) points))"
    using pts by simp
  also have "\<dots> = tl (take mi points) @ points ! mi # butlast (drop (Suc mi) points)"
    using ne1 ne2 by (simp add: butlast_append)
  finally show ?thesis by (simp add: a b)
qed

lemma keepsEnds_join:
  assumes "1 \<le> mi" and "mi < length points - 1"
    and "keepsEnds (take (Suc mi) points) left"
    and "keepsEnds (drop mi points) right"
  shows "keepsEnds points (butlast left @ right)"
proof -
  have lt: "mi < length points" using assms by simp
  obtain ml where l: "left = hd (take (Suc mi) points) # ml @ [last (take (Suc mi) points)]"
      and sl: "subseq ml (butlast (tl (take (Suc mi) points)))"
    using assms(3) by (auto simp: keepsEnds_def)
  obtain mr where r: "right = hd (drop mi points) # mr @ [last (drop mi points)]"
      and sr: "subseq mr (butlast (tl (drop mi points)))"
    using assms(4) by (auto simp: keepsEnds_def)
  have h1: "hd (take (Suc mi) points) = hd points" using lt by (cases points) auto
  have h2: "hd (drop mi points) = points ! mi" using lt by (simp add: hd_drop_conv_nth)
  have h3: "last (drop mi points) = last points" using lt by simp
  have "butlast left @ right = hd points # (ml @ points ! mi # mr) @ [last points]"
    by (simp add: l r h1 h2 h3 butlast_append)
  moreover have "subseq (ml @ points ! mi # mr) (butlast (tl points))"
    unfolding inner_split [OF assms(1,2)]
    using sl sr by (intro list_emb_append_mono) auto
  ultimately show ?thesis by (auto simp: keepsEnds_def)
qed

lemma keepsEnds_pair:
  assumes "2 \<le> length points"
  shows "keepsEnds points [points ! 0, points ! (length points - 1)]"
  using assms by (cases points) (auto simp: keepsEnds_def hd_conv_nth last_conv_nth)

lemma keepsEnds_self:
  assumes "length points = 2"
  shows "keepsEnds points points"
proof -
  obtain a b where "points = [a, b]"
    using assms by (cases points; cases "tl points") auto
  then show ?thesis by (simp add: keepsEnds_def)
qed

lemma douglasPeucker_total:
  assumes "0 \<le> tolerance"
  shows "2 \<le> length points \<Longrightarrow> \<exists>out. douglasPeucker points tolerance = Some out \<and> keepsEnds points out"
proof (induction "length points" arbitrary: points rule: less_induct)
  case less
  show ?case
  proof (cases "length points \<le> 2")
    case True
    then have "length points = 2" using less.prems by simp
    then show ?thesis
      by (subst douglasPeucker.simps) (simp add: keepsEnds_self)
  next
    case False
    obtain md mi where fm: "findMax points (points ! 0) (points ! (length points - 1)) = (md, mi)"
      by (cases "findMax points (points ! 0) (points ! (length points - 1))") auto
    show ?thesis
    proof (cases "tolerance < md")
      case True
      then have "0 < md" using assms by simp
      then have mi: "1 \<le> mi" "mi < length points - 1"
        using findMax_range [OF fm] by auto
      have "\<exists>out. douglasPeucker (take (mi + 1) points) tolerance = Some out
                  \<and> keepsEnds (take (mi + 1) points) out"
        using mi by (intro less.hyps) auto
      then obtain left where L: "douglasPeucker (take (mi + 1) points) tolerance = Some left"
          and kl: "keepsEnds (take (Suc mi) points) left" by auto
      have "\<exists>out. douglasPeucker (drop mi points) tolerance = Some out
                  \<and> keepsEnds (drop mi points) out"
        using mi by (intro less.hyps) auto
      then obtain right where R: "douglasPeucker (drop mi points) tolerance = Some right"
          and kr: "keepsEnds (drop mi points) right" by auto
      have "douglasPeucker points tolerance = Some (butlast left @ right)"
        using False True fm L R by (subst douglasPeucker.simps) (simp add: Let_def)
      then show ?thesis
        using keepsEnds_join [OF mi kl kr] by simp
    next
      case nt: False
      have "douglasPeucker points tolerance = Some [points ! 0, points ! (length points - 1)]"
        using False nt fm by (subst douglasPeucker.simps) (simp add: Let_def)
      then show ?thesis
        using keepsEnds_pair [of points] less.prems by simp
    qed
  qed
qed

lemma douglasPeucker_partial:
  assumes "douglasPeucker points tolerance = Some out"
  shows "if length points < 2 then out = points else keepsEnds points out"
  using assms
proof (induction rule: douglasPeucker.raw_induct [rotated 1, consumes 1])
  case (1 dp points tolerance out)
  note IH = 1(1) and body = 1(2)
  show ?case
  proof (cases "length points \<le> 2")
    case True
    then show ?thesis
      using body by (auto simp: keepsEnds_self)
  next
    case False
    obtain md mi where fm: "findMax points (points ! 0) (points ! (length points - 1)) = (md, mi)"
      by (cases "findMax points (points ! 0) (points ! (length points - 1))") auto
    show ?thesis
    proof (cases "tolerance < md")
      case True
      then obtain left right where L: "dp (take (mi + 1) points) tolerance = Some left"
          and R: "dp (drop mi points) tolerance = Some right"
          and out: "out = butlast left @ right"
        using body False fm by (auto simp: Let_def split: bind_splits)
      show ?thesis
      proof (cases "mi = 0")
        case True
        have "left = take 1 points"
          using IH [OF L] False True by simp
        moreover have "keepsEnds points right"
          using IH [OF R] False True by simp
        ultimately show ?thesis
          using False out by (cases points) auto
      next
        case False
        then have mi: "1 \<le> mi" "mi < length points - 1"
          using findMax_range [OF fm] by auto
        have kl: "keepsEnds (take (Suc mi) points) left"
          using IH [OF L] mi by simp
        have kr: "keepsEnds (drop mi points) right"
          using IH [OF R] mi by (simp split: if_splits)
        show ?thesis
          using keepsEnds_join [OF mi kl kr] \<open>\<not> length points \<le> 2\<close> out by simp
      qed
    next
      case nt: False
      have "out = [points ! 0, points ! (length points - 1)]"
        using body False nt fm by (simp add: Let_def)
      then show ?thesis
        using keepsEnds_pair [of points] False by simp
    qed
  qed
qed

lemma douglasPeucker_no_progress:
  assumes "douglasPeucker points tolerance = Some out"
  shows "\<not> (tolerance < 0 \<and> 2 < length points
            \<and> findMax points (points ! 0) (points ! (length points - 1)) = (0, 0))"
  using assms
proof (induction rule: douglasPeucker.raw_induct [rotated 1, consumes 1])
  case (1 dp points tolerance out)
  note IH = 1(1) and body = 1(2)
  show ?case
  proof
    assume h: "tolerance < 0 \<and> 2 < length points
            \<and> findMax points (points ! 0) (points ! (length points - 1)) = (0, 0)"
    then obtain right where "dp points tolerance = Some right"
      using body by (auto simp: Let_def split: bind_splits)
    from IH [OF this] h show False by simp
  qed
qed

lemma keepsEnds_subseq:
  assumes "keepsEnds points out" and "2 \<le> length points"
  shows "subseq out points \<and> hd out = hd points \<and> last out = last points"
proof -
  obtain mid where out: "out = hd points # mid @ [last points]"
      and sub: "subseq mid (butlast (tl points))"
    using assms(1) by (auto simp: keepsEnds_def)
  have tl_ne: "tl points \<noteq> []" using assms(2) by (cases points) auto
  have "points = hd points # tl points" using assms(2) by (cases points) auto
  also have "tl points = butlast (tl points) @ [last points]"
    using tl_ne by (cases points) (auto simp: append_butlast_last_id)
  finally have pts: "points = hd points # butlast (tl points) @ [last points]" .
  have "subseq (hd points # mid @ [last points]) (hd points # butlast (tl points) @ [last points])"
    using sub by (intro subseq_Cons2 list_emb_append_mono) auto
  then show ?thesis
    using out pts by simp
qed

lemma sqrt_16: "sqrt 16 = 4"
  using real_sqrt_abs2 [of 4] by simp

lemma douglasPeucker_backtrack_example:
  "douglasPeucker [\<lparr>pt_x = 0, pt_y = 0\<rparr>, \<lparr>pt_x = 5, pt_y = 0\<rparr>, \<lparr>pt_x = 1, pt_y = 0\<rparr>] 1
     = Some [\<lparr>pt_x = 0, pt_y = 0\<rparr>, \<lparr>pt_x = 5, pt_y = 0\<rparr>, \<lparr>pt_x = 1, pt_y = 0\<rparr>]"
proof -
  have d: "distanceToLine \<lparr>pt_x = 5, pt_y = 0\<rparr> \<lparr>pt_x = 0, pt_y = 0\<rparr> \<lparr>pt_x = 1, pt_y = 0\<rparr> = 4"
    by (simp add: distanceToLine_def Let_def sqrt_16)
  have fm: "findMax [\<lparr>pt_x = 0, pt_y = 0\<rparr>, \<lparr>pt_x = 5, pt_y = 0\<rparr>, \<lparr>pt_x = 1, pt_y = 0\<rparr>]
              \<lparr>pt_x = 0, pt_y = 0\<rparr> \<lparr>pt_x = 1, pt_y = 0\<rparr> = (4, 1)"
    by (simp add: findMax_def d)
  have l: "douglasPeucker [\<lparr>pt_x = 0, pt_y = 0\<rparr>, \<lparr>pt_x = 5, pt_y = 0\<rparr>] 1
             = Some [\<lparr>pt_x = 0, pt_y = 0\<rparr>, \<lparr>pt_x = 5, pt_y = 0\<rparr>]"
    by (subst douglasPeucker.simps) simp
  have r: "douglasPeucker [\<lparr>pt_x = 5, pt_y = 0\<rparr>, \<lparr>pt_x = 1, pt_y = 0\<rparr>] 1
             = Some [\<lparr>pt_x = 5, pt_y = 0\<rparr>, \<lparr>pt_x = 1, pt_y = 0\<rparr>]"
    by (subst douglasPeucker.simps) simp
  show ?thesis
    by (subst douglasPeucker.simps) (simp add: fm l r)
qed




text \<open>
  C10 (as amended). For every non-empty list and every tolerance, a list that
  \<open>simplifyPoints\<close> returns is a subsequence of the input, in order, that starts with the
  first point of the input and ends with its last point; for every tolerance that is not
  negative, \<open>simplifyPoints\<close> returns.
\<close>

theorem C10_simplifyPoints_subsequence:
  assumes "points \<noteq> []"
  shows "(\<forall>out. simplifyPoints points tolerance = Some out \<longrightarrow>
            subseq out points \<and> hd out = hd points \<and> last out = last points)
         \<and> (0 \<le> tolerance \<longrightarrow> (\<exists>out. simplifyPoints points tolerance = Some out))"
proof (rule conjI; intro allI impI)
  fix out assume s: "simplifyPoints points tolerance = Some out"
  show "subseq out points \<and> hd out = hd points \<and> last out = last points"
  proof (cases "length points \<le> 2")
    case True
    then show ?thesis using s by (simp add: simplifyPoints_def)
  next
    case False
    then have "douglasPeucker points tolerance = Some out"
      using s by (simp add: simplifyPoints_def)
    from douglasPeucker_partial [OF this] False have "keepsEnds points out" by simp
    then show ?thesis using keepsEnds_subseq False by simp
  qed
next
  assume "0 \<le> tolerance"
  then show "\<exists>out. simplifyPoints points tolerance = Some out"
    using douglasPeucker_total [of tolerance points]
    by (cases "length points \<le> 2") (auto simp: simplifyPoints_def)
qed

theorem C10_witness:
  "simplifyPoints [\<lparr>pt_x = 0, pt_y = 0\<rparr>, \<lparr>pt_x = 5, pt_y = 0\<rparr>, \<lparr>pt_x = 1, pt_y = 0\<rparr>] 1
     = Some [\<lparr>pt_x = 0, pt_y = 0\<rparr>, \<lparr>pt_x = 5, pt_y = 0\<rparr>, \<lparr>pt_x = 1, pt_y = 0\<rparr>]
   \<and> subseq [\<lparr>pt_x = 0, pt_y = 0\<rparr>, \<lparr>pt_x = 5, pt_y = 0\<rparr>, \<lparr>pt_x = 1, pt_y = 0\<rparr>]
        [\<lparr>pt_x = 0, pt_y = 0\<rparr>, \<lparr>pt_x = 5, pt_y = 0\<rparr>, \<lparr>pt_x = 1, pt_y = 0\<rparr>]"
  using C10_simplifyPoints_subsequence [of "[\<lparr>pt_x = 0, pt_y = 0\<rparr>, \<lparr>pt_x = 5, pt_y = 0\<rparr>, \<lparr>pt_x = 1, pt_y = 0\<rparr>]" 1] douglasPeucker_backtrack_example
  by (simp add: simplifyPoints_def)

text \<open>
  The claim as stated fails for a negative tolerance: on three points of one segment the
  maximal distance 0 exceeds the tolerance, the split index is 0, the right half is the
  whole list again, and the recursion never returns.
\<close>

theorem C10_counterexample:
  "simplifyPoints [\<lparr>pt_x = 0, pt_y = 0\<rparr>, \<lparr>pt_x = 1, pt_y = 0\<rparr>, \<lparr>pt_x = 2, pt_y = 0\<rparr>] (- 1) = None"
proof -
  have d: "distanceToLine \<lparr>pt_x = 1, pt_y = 0\<rparr> \<lparr>pt_x = 0, pt_y = 0\<rparr> \<lparr>pt_x = 2, pt_y = 0\<rparr> = 0"
    by (simp add: distanceToLine_def Let_def)
  have fm: "findMax [\<lparr>pt_x = 0, pt_y = 0\<rparr>, \<lparr>pt_x = 1, pt_y = 0\<rparr>, \<lparr>pt_x = 2, pt_y = 0\<rparr>]
              \<lparr>pt_x = 0, pt_y = 0\<rparr> \<lparr>pt_x = 2, pt_y = 0\<rparr> = (0, 0)"
    by (simp add: findMax_def d)
  have "douglasPeucker [\<lparr>pt_x = 0, pt_y = 0\<rparr>, \<lparr>pt_x = 1, pt_y = 0\<rparr>, \<lparr>pt_x = 2, pt_y = 0\<rparr>] (- 1) \<noteq> Some out" for out
    using douglasPeucker_no_progress
      [of "[\<lparr>pt_x = 0, pt_y = 0\<rparr>, \<lparr>pt_x = 1, pt_y = 0\<rparr>, \<lparr>pt_x = 2, pt_y = 0\<rparr>]" "- 1" out] fm
    by auto
  then have "douglasPeucker [\<lparr>pt_x = 0, pt_y = 0\<rparr>, \<lparr>pt_x = 1, pt_y = 0\<rparr>, \<lparr>pt_x = 2, pt_y = 0\<rparr>] (- 1) = None"
    by (cases "douglasPeucker [\<lparr>pt_x = 0, pt_y = 0\<rparr>, \<lparr>pt_x = 1, pt_y = 0\<rparr>, \<lparr>pt_x = 2, pt_y = 0\<rparr>] (- 1)") auto
  then show ?thesis
    by (simp add: simplifyPoints_def)
qed

section \<open>Samplers: results\<close>


lemma stepCount_0: "\<not> x \<le> hi \<Longrightarrow> stepCount x hi step = 0"
  by (simp add: stepCount_def)











section \<open>Numerical integration: results\<close>

lemma safeEvaluate_resultAt:
  "\<exists>ev. safeEvaluate M expr (variables(asc ''x'' \<mapsto> x)) = Inr ev \<and> result ev = resultAt M expr variables x"
  using safeEvaluate_returns [of M expr "variables(asc ''x'' \<mapsto> x)"]
  by (auto simp: resultAt_def)

lemma stride_set:
  fixes i n :: nat
  assumes "i < n"
  shows "{j \<in> {i..<n}. even (j - i)} = insert i {j \<in> {i + 2..<n}. even (j - (i + 2))}"
proof (rule set_eqI)
  fix j
  show "(j \<in> {j \<in> {i..<n}. even (j - i)}) = (j \<in> insert i {j \<in> {i + 2..<n}. even (j - (i + 2))})"
  proof (cases "j = i")
    case True
    then show ?thesis using assms by simp
  next
    case False
    show ?thesis
    proof (cases "j = i + 1")
      case True
      then show ?thesis by simp
    next
      case F2: False
      have "j - i = (j - (i + 2)) + 2" if "i \<le> j" using that False F2 by arith
      then show ?thesis using False F2 by auto
    qed
  qed
qed

lemma simpsonLoop_finite:
  assumes "\<And>j. i \<le> j \<Longrightarrow> j < n \<Longrightarrow>
             resultAt M expr variables (Fin (a + real j * h)) = Some (Fin (f j))"
  shows "simpsonLoop M expr variables a (Fin h) weight i n (Fin acc) =
           Inr (Some (Fin (acc + weight * (\<Sum>j \<in> {j \<in> {i..<n}. even (j - i)}. f j))))"
  using assms
proof (induction "n - i" arbitrary: i acc rule: less_induct)
  case less
  show ?case
  proof (cases "i < n")
    case False
    then have "{j \<in> {i..<n}. even (j - i)} = {}" by auto
    then show ?thesis using False by (subst simpsonLoop.simps) simp
  next
    case True
    obtain ev where ev: "safeEvaluate M expr (variables(asc ''x'' \<mapsto> Fin (a + real i * h))) = Inr ev"
        and r: "result ev = Some (Fin (f i))"
      using safeEvaluate_resultAt [of M expr variables "Fin (a + real i * h)"] less.prems [of i] True
      by auto
    have IH: "simpsonLoop M expr variables a (Fin h) weight (i + 2) n (Fin (acc + weight * f i)) =
           Inr (Some (Fin ((acc + weight * f i)
                 + weight * (\<Sum>j \<in> {j \<in> {i + 2..<n}. even (j - (i + 2))}. f j))))"
      using True less.prems by (intro less.hyps) auto
    have fin: "finite {j \<in> {i + 2..<n}. even (j - (i + 2))}" by simp
    have notin: "i \<notin> {j \<in> {i + 2..<n}. even (j - (i + 2))}" by simp
    have "simpsonLoop M expr variables a (Fin h) weight i n (Fin acc) =
            simpsonLoop M expr variables a (Fin h) weight (i + 2) n (Fin (acc + weight * f i))"
      using True by (subst simpsonLoop.simps) (simp add: Let_def ev r)
    then show ?thesis
      unfolding IH stride_set [OF True] sum.insert [OF fin notin]
      by (simp add: algebra_simps)
  qed
qed

lemma simpsonLoop_no_throw: "\<exists>r. simpsonLoop M expr variables a h weight i n acc = Inr r"
proof (induction "n - i" arbitrary: i acc rule: less_induct)
  case less
  show ?case
  proof (cases "i < n")
    case False
    then show ?thesis by (subst simpsonLoop.simps) simp
  next
    case True
    obtain ev where ev: "safeEvaluate M expr (variables(asc ''x'' \<mapsto> jadd (Fin a) (jmul (Fin (real i)) h))) = Inr ev"
      using safeEvaluate_returns by blast
    show ?thesis
    proof (cases "result ev")
      case None
      then show ?thesis using True ev by (subst simpsonLoop.simps) (simp add: Let_def)
    next
      case (Some v)
      have "\<exists>r. simpsonLoop M expr variables a h weight (i + 2) n (jadd acc (jmul (Fin weight) v)) = Inr r"
        using True by (intro less.hyps) auto
      then show ?thesis using True ev Some by (subst simpsonLoop.simps) (simp add: Let_def)
    qed
  qed
qed

text \<open>\<open>numericalIntegral\<close> never throws.\<close>

lemma numericalIntegral_no_throw: "\<exists>r. numericalIntegral M expr a b n0 extra = Inr r"
proof -
  define n where "n = (if n0 mod 2 \<noteq> 0 then n0 + 1 else n0)"
  define h where "h = jdiv (Fin (b - a)) (Fin (real n))"
  obtain fa where fa: "safeEvaluate M expr (extra(asc ''x'' \<mapsto> Fin a)) = Inr fa"
    using safeEvaluate_returns by blast
  obtain fb where fb: "safeEvaluate M expr (extra(asc ''x'' \<mapsto> Fin b)) = Inr fb"
    using safeEvaluate_returns by blast
  show ?thesis
  proof (cases "result fa")
    case None
    then show ?thesis
      unfolding numericalIntegral_def Let_def by (simp add: fa fb)
  next
    case va: (Some va)
    show ?thesis
    proof (cases "result fb")
      case None
      then show ?thesis
        unfolding numericalIntegral_def Let_def by (simp add: fa fb va)
    next
      case vb: (Some vb)
      obtain r1 where r1: "simpsonLoop M expr extra a h 4 (Suc 0) n (jadd (Fin 0) (jadd va vb)) = Inr r1"
        using simpsonLoop_no_throw by blast
      show ?thesis
      proof (cases r1)
        case None
        then show ?thesis
          unfolding numericalIntegral_def Let_def n_def [symmetric] h_def [symmetric]
          by (simp add: fa fb va vb r1)
      next
        case (Some sum1)
        obtain r2 where r2: "simpsonLoop M expr extra a h 2 2 n sum1 = Inr r2"
          using simpsonLoop_no_throw by blast
        show ?thesis
          unfolding numericalIntegral_def Let_def n_def [symmetric] h_def [symmetric]
          by (cases r2) (simp_all add: fa fb va vb r1 Some r2)
      qed
    qed
  qed
qed

lemma simpsonLoop_null:
  assumes "i \<le> j" and "j < n" and "even (j - i)"
    and "resultAt M expr variables (jadd (Fin a) (jmul (Fin (real j)) h)) = None"
  shows "simpsonLoop M expr variables a h weight i n acc = Inr None"
  using assms(1,3)
proof (induction "n - i" arbitrary: i acc rule: less_induct)
  case less
  have lt: "i < n" using less.prems(1) assms(2) by simp
  obtain ev where ev: "safeEvaluate M expr (variables(asc ''x'' \<mapsto> jadd (Fin a) (jmul (Fin (real i)) h))) = Inr ev"
      and r: "result ev = resultAt M expr variables (jadd (Fin a) (jmul (Fin (real i)) h))"
    using safeEvaluate_resultAt by blast
  show ?case
  proof (cases "result ev")
    case None
    then show ?thesis using lt ev by (subst simpsonLoop.simps) (simp add: Let_def)
  next
    case (Some v)
    then have "j \<noteq> i" using r assms(4) by auto
    moreover have "j \<noteq> i + 1" using less.prems(2) by auto
    ultimately have ge: "i + 2 \<le> j" using less.prems(1) by arith
    then have "j - i = (j - (i + 2)) + 2" by arith
    then have ev2: "even (j - (i + 2))" using less.prems(2) by simp
    have "simpsonLoop M expr variables a h weight (i + 2) n (jadd acc (jmul (Fin weight) v)) = Inr None"
      using lt ge ev2 by (intro less.hyps) auto
    then show ?thesis using lt ev Some by (subst simpsonLoop.simps) (simp add: Let_def)
  qed
qed

lemma odd_stride: "{j \<in> {1..<n}. even (j - 1)} = {j::nat. j < n \<and> odd j}"
  by (auto elim: oddE)

lemma even_stride: "{j \<in> {2..<n}. even (j - 2)} = {j::nat. 0 < j \<and> j < n \<and> even j}"
proof (rule set_eqI)
  fix j :: nat
  have "even (j - 2) = even j" if "2 \<le> j"
    using that by auto
  moreover have "2 \<le> j" if "0 < j" "even j"
  proof -
    have "j \<noteq> 1" using that(2) by auto
    then show ?thesis using that(1) by arith
  qed
  ultimately show "(j \<in> {j \<in> {2..<n}. even (j - 2)}) = (j \<in> {j. 0 < j \<and> j < n \<and> even j})"
    by auto
qed

text \<open>
  With \<open>n\<close> made even and every sample a finite value \<open>f j\<close> at \<open>a + j * h\<close>, the
  result is the composite Simpson value.
\<close>

lemma numericalIntegral_simpson:
  fixes f :: "nat \<Rightarrow> real"
  assumes n: "n = (if n0 mod 2 \<noteq> 0 then n0 + 1 else n0)" and pos: "0 < n"
    and h: "h = (b - a) / real n"
    and samples: "\<And>j. j \<le> n \<Longrightarrow> resultAt M expr extra (Fin (a + real j * h)) = Some (Fin (f j))"
  shows "numericalIntegral M expr a b n0 extra =
           Inr (Some (Fin ((h / 3) * (f 0 + f n + 4 * (\<Sum>j | j < n \<and> odd j. f j)
                                      + 2 * (\<Sum>j | 0 < j \<and> j < n \<and> even j. f j)))))"
proof -
  have hn: "real n * h = b - a" using pos by (simp add: h)
  have jh: "jdiv (Fin (b - a)) (Fin (real n)) = Fin h" using pos by (simp add: h)
  have "resultAt M expr extra (Fin (a + real 0 * h)) = Some (Fin (f 0))"
    by (rule samples) simp
  then obtain fa where fa: "safeEvaluate M expr (extra(asc ''x'' \<mapsto> Fin a)) = Inr fa"
      and ra: "result fa = Some (Fin (f 0))"
    using safeEvaluate_resultAt [of M expr extra "Fin a"] by auto
  have "resultAt M expr extra (Fin (a + real n * h)) = Some (Fin (f n))"
    by (rule samples) simp
  then have "resultAt M expr extra (Fin b) = Some (Fin (f n))"
    by (simp add: hn)
  then obtain fb where fb: "safeEvaluate M expr (extra(asc ''x'' \<mapsto> Fin b)) = Inr fb"
      and rb: "result fb = Some (Fin (f n))"
    using safeEvaluate_resultAt [of M expr extra "Fin b"] by auto
  have l1: "simpsonLoop M expr extra a (Fin h) 4 (Suc 0) n (Fin (f 0 + f n)) =
              Inr (Some (Fin ((f 0 + f n) + 4 * (\<Sum>j | j < n \<and> odd j. f j))))"
    using simpsonLoop_finite [of 1 n M expr extra a h f 4 "f 0 + f n", unfolded odd_stride] samples
    by simp
  have l2: "simpsonLoop M expr extra a (Fin h) 2 2 n (Fin ((f 0 + f n) + 4 * (\<Sum>j | j < n \<and> odd j. f j))) =
              Inr (Some (Fin (((f 0 + f n) + 4 * (\<Sum>j | j < n \<and> odd j. f j))
                              + 2 * (\<Sum>j | 0 < j \<and> j < n \<and> even j. f j))))"
    using simpsonLoop_finite [of 2 n M expr extra a h f 2 "(f 0 + f n) + 4 * (\<Sum>j | j < n \<and> odd j. f j)",
        unfolded even_stride] samples
    by simp
  show ?thesis
    unfolding numericalIntegral_def Let_def n [symmetric] jh
    by (simp add: fa fb ra rb l1 l2)
qed

text \<open>A sample without a value (an error of the evaluator) gives \<open>null\<close>.\<close>

lemma numericalIntegral_null:
  assumes n: "n = (if n0 mod 2 \<noteq> 0 then n0 + 1 else n0)"
    and h: "h = jdiv (Fin (b - a)) (Fin (real n))"
    and j: "j \<le> n"
    and none: "resultAt M expr extra
                 (if j = 0 then Fin a else if j = n then Fin b
                  else jadd (Fin a) (jmul (Fin (real j)) h)) = None"
  shows "numericalIntegral M expr a b n0 extra = Inr None"
proof -
  obtain fa where fa: "safeEvaluate M expr (extra(asc ''x'' \<mapsto> Fin a)) = Inr fa"
      and ra: "result fa = resultAt M expr extra (Fin a)"
    using safeEvaluate_resultAt by blast
  obtain fb where fb: "safeEvaluate M expr (extra(asc ''x'' \<mapsto> Fin b)) = Inr fb"
      and rb: "result fb = resultAt M expr extra (Fin b)"
    using safeEvaluate_resultAt by blast
  show ?thesis
  proof (cases "result fa = None \<or> result fb = None")
    case True
    then show ?thesis
      unfolding numericalIntegral_def Let_def
      by (auto simp: fa fb split: option.splits)
  next
    case False
    then obtain va vb where va: "result fa = Some va" and vb: "result fb = Some vb" by auto
    have j0: "j \<noteq> 0" using none va ra by (auto split: if_splits)
    have jn: "j \<noteq> n" using none vb rb j0 by (auto split: if_splits)
    have nonej: "resultAt M expr extra (jadd (Fin a) (jmul (Fin (real j)) h)) = None"
      using none j0 jn by simp
    have jlt: "j < n" using j jn by simp
    show ?thesis
    proof (cases "odd j")
      case True
      then have "even (j - 1)" by simp
      then have "simpsonLoop M expr extra a h 4 (Suc 0) n (jadd (Fin 0) (jadd va vb)) = Inr None"
        using simpsonLoop_null [of 1 j n M expr extra a h 4] j0 jlt nonej by simp
      then show ?thesis
        unfolding numericalIntegral_def Let_def n [symmetric] h [symmetric]
        by (simp add: fa fb va vb)
    next
      case ev: False
      then have "j \<noteq> 1" by auto
      then have "2 \<le> j" using j0 by arith
      moreover from this have "even (j - 2)" using ev by auto
      ultimately have l2: "simpsonLoop M expr extra a h 2 2 n acc = Inr None" for acc
        using simpsonLoop_null [of 2 j n M expr extra a h 2] jlt nonej by simp
      obtain r1 where r1: "simpsonLoop M expr extra a h 4 (Suc 0) n (jadd (Fin 0) (jadd va vb)) = Inr r1"
        using simpsonLoop_no_throw by blast
      show ?thesis
        unfolding numericalIntegral_def Let_def n [symmetric] h [symmetric]
        by (cases r1) (simp_all add: fa fb va vb r1 l2)
    qed
  qed
qed

text \<open>
  C5. \<open>numericalIntegral\<close> makes \<open>n\<close> even, returns the composite Simpson value when
  every sample is a finite value, returns \<open>null\<close> when a sample is invalid, and never
  throws. The code checks a sample for \<open>null\<close> only, and \<open>safeEvaluate\<close> returns the real
  part of a complex result unchecked: where the samples are complex with an infinite real part
  (as \<open>sqrt(x)/0\<close> is on negative \<open>x\<close>), every sample is invalid and the integral over
  \<open>[-2, -1]\<close> with \<open>n = 2\<close> is returned as \<open>Infinity\<close>, not as \<open>null\<close>.
\<close>

theorem C5_numericalIntegral_returns_infinity:
  "numericalIntegral (engineReturning (RComplex PInf PInf)) (asc ''sqrt(x)/0'') (- 2) (- 1) 2 Map.empty
     = Inr (Some PInf)"
proof -
  have s: "safeEvaluate (engineReturning (RComplex PInf PInf)) e sc = Inr \<lparr> result = Some PInf, error = None \<rparr>" for e sc
    by (simp add: evaluator_defs engineReturning_def)
  have l1: "simpsonLoop (engineReturning (RComplex PInf PInf)) e vars a (Fin (1 / 2)) 4 (Suc 0) 2 PInf = Inr (Some PInf)" for e vars a
    by (simp add: simpsonLoop.simps s signedInf_def)
  have l2: "simpsonLoop (engineReturning (RComplex PInf PInf)) e vars a (Fin (1 / 2)) 2 2 2 PInf = Inr (Some PInf)" for e vars a
    by (simp add: simpsonLoop.simps s signedInf_def)
  show ?thesis
    by (simp add: numericalIntegral_def Let_def s l1 l2 signedInf_def)
qed

section \<open>The expression sanitizer: results\<close>








lemma keywords_word: "k \<in> set dangerousKeywords \<Longrightarrow> k \<noteq> [] \<and> (\<forall>c \<in> set k. isWordChar c)"
  by (auto simp: dangerousKeywords_def asc_def isWordChar_def)

lemma matchKeyword_iff: "(matchKeyword pw s \<noteq> None) = (\<not> pw \<and> kwAt s)"
proof -
  have wb: "wordBoundary pw s = (\<not> pw)" if kin: "k \<in> set dangerousKeywords" and pre: "prefix k s" for k
  proof -
    obtain a k' where k: "k = a # k'" and a: "isWordChar a"
      using keywords_word [OF kin] by (cases k) auto
    then obtain s' where "s = a # s'" using pre by (auto simp: prefix_def)
    then show ?thesis using a by (simp add: wordBoundary_def)
  qed
  have ew: "wordBoundary (isWordChar (last k)) (drop (length k) s) = endsWord k s"
    if kin: "k \<in> set dangerousKeywords" for k
  proof -
    have "isWordChar (last k)" using keywords_word [OF kin] by simp
    then show ?thesis by (simp add: wordBoundary_def endsWord_def split: list.splits)
  qed
  show ?thesis
  proof
    assume "matchKeyword pw s \<noteq> None"
    then have b: "wordBoundary pw s"
      and "find (\<lambda>k. prefix k s \<and> wordBoundary (isWordChar (last k)) (drop (length k) s))
             dangerousKeywords \<noteq> None"
      by (auto simp: matchKeyword_def split: if_splits option.splits)
    then obtain k where k: "k \<in> set dangerousKeywords" "prefix k s"
        "wordBoundary (isWordChar (last k)) (drop (length k) s)"
      by (auto simp: find_None_iff)
    then show "\<not> pw \<and> kwAt s"
      using wb [OF k(1,2)] ew [OF k(1)] b by (auto simp: kwAt_def)
  next
    assume h: "\<not> pw \<and> kwAt s"
    then obtain k where k: "k \<in> set dangerousKeywords" "prefix k s" "endsWord k s"
      by (auto simp: kwAt_def)
    have "find (\<lambda>k. prefix k s \<and> wordBoundary (isWordChar (last k)) (drop (length k) s))
             dangerousKeywords \<noteq> None"
      using k ew [OF k(1)] by (auto simp: find_None_iff)
    then show "matchKeyword pw s \<noteq> None"
      using h wb [OF k(1,2)] by (auto simp: matchKeyword_def)
  qed
qed





lemma kwAt_word: "kwAt (c # cs) \<Longrightarrow> isWordChar c"
proof -
  assume "kwAt (c # cs)"
  then obtain k where k: "k \<in> set dangerousKeywords" "prefix k (c # cs)"
    by (auto simp: kwAt_def)
  have "k \<noteq> []" and "\<forall>x \<in> set k. isWordChar x"
    using keywords_word [OF k(1)] by auto
  then obtain a k' where "k = a # k'" "isWordChar a"
    by (cases k) auto
  then show ?thesis using k(2) by simp
qed

lemma matchKeyword_nonword: "\<not> isWordChar c \<Longrightarrow> matchKeyword pw (c # cs) = None"
  using matchKeyword_iff [of pw "c # cs"] kwAt_word [of c cs] by auto




lemma scan_nonword:
  "\<not> isWordChar d \<Longrightarrow> removeMatches matchKeyword 0 pw (d # t) = d # removeMatches matchKeyword 0 False t"
  by (simp add: matchKeyword_nonword)













































end
